theory Spec2Isabelle
  imports Main "HOL-Library.Word"
begin

section \<open>Bytes, buffers and JavaScript containers\<close>

text \<open>
  The receiver (\<^verbatim>\<open>StreamReceiver\<close>, TypeScript) reads binary frames from a socket and
  gates every outgoing control message. A frame is a list of bytes. Every \<^verbatim>\<open>throw\<close>
  of the source is a value of \<open>error\<close>: \<open>RangeError\<close> for a read beyond the end of a
  buffer, \<open>TypeError\<close> for a property access on \<^verbatim>\<open>undefined\<close>, \<open>DecodeError\<close> for a
  failure inside one of the decoders that live outside the receiver.
\<close>

type_synonym byte = "8 word"

datatype error = RangeError | TypeError | DecodeError

text \<open>
  \<^verbatim>\<open>Buffer.readInt32BE(0)\<close>: four bytes, big endian, two's complement; it throws a
  RangeError when the buffer holds fewer than four bytes.
\<close>

definition readInt32BE :: "byte list \<Rightarrow> error + int" where
  "readInt32BE buf =
     (if length buf < 4 then Inl RangeError
      else
        (let u = uint (buf ! 0) * 16777216 + uint (buf ! 1) * 65536
                 + uint (buf ! 2) * 256 + uint (buf ! 3)
         in Inr (if 2147483648 \<le> u then u - 4294967296 else u)))"

text \<open>
  \<^verbatim>\<open>Buffer.slice(start, end)\<close>: a negative index counts from the end, every index
  is clamped to the buffer, and an end before the start gives the empty buffer.
  \<open>Buffer_slice_from\<close> is the one-argument call \<^verbatim>\<open>slice(start)\<close>.
\<close>

definition clampIndex :: "int \<Rightarrow> int \<Rightarrow> int" where
  "clampIndex len i = (if i < 0 then (if i + len < 0 then 0 else i + len)
                       else if len < i then len else i)"

definition Buffer_slice :: "byte list \<Rightarrow> int \<Rightarrow> int \<Rightarrow> byte list" where
  "Buffer_slice buf start end =
     (let len = int (length buf);
          st = clampIndex len start;
          en = clampIndex len end;
          en' = (if en < st then st else en)
      in take (nat (en' - st)) (drop (nat st) buf))"

definition Buffer_slice_from :: "byte list \<Rightarrow> int \<Rightarrow> byte list" where
  "Buffer_slice_from buf start = Buffer_slice buf start (int (length buf))"

text \<open>
  A JavaScript \<^verbatim>\<open>Map\<close> keeps its keys in insertion order, and \<^verbatim>\<open>set\<close> on a key that
  is present replaces the value where it stands: an association list. A \<^verbatim>\<open>Set\<close> of
  strings is a list without duplicates, in insertion order.
\<close>

fun Map_set :: "'k \<Rightarrow> 'v \<Rightarrow> ('k \<times> 'v) list \<Rightarrow> ('k \<times> 'v) list" where
  "Map_set k v [] = [(k, v)]"
| "Map_set k v (p # ps) = (if fst p = k then (k, v) # ps else p # Map_set k v ps)"

definition Map_get :: "('k \<times> 'v) list \<Rightarrow> 'k \<Rightarrow> 'v option" where
  "Map_get m k = map_of m k"

definition Set_add :: "'a \<Rightarrow> 'a list \<Rightarrow> 'a list" where
  "Set_add x xs = (if x \<in> set xs then xs else xs @ [x])"

section \<open>The receiver's state\<close>

text \<open>
  A control message, as far as the receiver looks into it: its \<^verbatim>\<open>type\<close>, and the
  \<^verbatim>\<open>action\<close> and \<^verbatim>\<open>keycode\<close> properties that key and touch messages carry
  (\<open>None\<close> is \<^verbatim>\<open>undefined\<close>).
\<close>

record ControlMessage =
  type :: int
  action :: "int option"
  keycode :: "int option"

text \<open>
  The record \<^verbatim>\<open>sendEvent\<close> logs for a message (\<^verbatim>\<open>actionMap\<close>): the time it was
  logged, the message's own properties, the content rectangle of the first screen, the
  device name, and \<^verbatim>\<open>executed\<close>, which is absent until the record is resolved.
\<close>

record 'r actionMap =
  action_time :: int
  ev :: ControlMessage
  contentRect :: "'r option"
  device_name :: string
  executed :: "bool option"

record ('di, 'si, 'vs) DisplayCombinedInfo =
  displayInfo :: 'di
  videoSettings :: "'vs option"
  screenInfo :: "'si option"
  connectionCount :: int

text \<open>The events the receiver emits to its listeners.\<close>

datatype ('di, 'si, 'vs, 'dm) emitted =
    Emit_video "byte list"
  | Emit_deviceMessage 'dm
  | Emit_displayInfo "('di, 'si, 'vs) DisplayCombinedInfo list"
  | Emit_clientsStats int string
  | Emit_encoders "string list"
  | Emit_connected
  | Emit_disconnected

text \<open>
  \<^verbatim>\<open>this.action_time\<close> starts as the empty string and is overwritten with whatever the
  authorization service answers; the model keeps the answers that are a number or
  absent.
\<close>

datatype js_time = TimeEmptyString | TimeNumber int | TimeUndefined

text \<open>
  The fields of \<^verbatim>\<open>StreamReceiver\<close>. The records of the action log are objects shared
  between the log and the submissions that created them, so they live in a store
  (\<open>objects\<close>, addressed by position) and \<open>actionMaps\<close> maps a time to an address.
  \<open>this_action_time\<close> and \<open>this_action_flag\<close> are \<^verbatim>\<open>this.action_time\<close> and
  \<^verbatim>\<open>this.action_flag\<close> (a logged record has an \<^verbatim>\<open>action_time\<close> of its own); the
  flag is a boolean, or \<open>None\<close> once an answer without one has been stored. The last
  four fields are what the receiver does to the outside: whether the socket is open,
  what was written to it, what was emitted, and the authorization requests sent (the
  logged record and the \<^verbatim>\<open>concurrency\<close> flag).
\<close>

record ('di, 'si, 'vs, 'dm, 'r) StreamReceiver =
  events :: "ControlMessage list"
  encodersSet :: "string list"
  clientId :: int
  deviceName :: string
  displayInfoMap :: "(int \<times> 'di) list"
  connectionCountMap :: "(int \<times> int) list"
  screenInfoMap :: "(int \<times> 'si) list"
  videoSettingsMap :: "(int \<times> 'vs) list"
  hasInitialInfo :: bool
  actionMaps :: "(int \<times> nat) list"
  this_action_time :: js_time
  this_action_flag :: "bool option"
  objects :: "'r actionMap list"
  ws_open :: bool
  ws_sent :: "ControlMessage list"
  emitted :: "('di, 'si, 'vs, 'dm) emitted list"
  fetched :: "('r actionMap \<times> bool) list"

text \<open>
  What the receiver imports from other modules of the repository (\<^verbatim>\<open>DisplayInfo\<close>,
  \<^verbatim>\<open>ScreenInfo\<close>, \<^verbatim>\<open>VideoSettings\<close>, \<^verbatim>\<open>DeviceMessage\<close>, \<^verbatim>\<open>Util\<close>): the decoders
  of the sub-records of the handshake, the magic prefix and the decoder of a device
  message, and the UTF-8 decoder. They are parameters of the model; a decoder that
  throws returns \<open>None\<close>.
\<close>

record ('di, 'si, 'vs, 'dm, 'r) externals =
  BUFFER_LENGTH :: nat
  DisplayInfo_fromBuffer :: "byte list \<Rightarrow> 'di option"
  displayId :: "'di \<Rightarrow> int"
  ScreenInfo_fromBuffer :: "byte list \<Rightarrow> 'si option"
  ScreenInfo_contentRect :: "'si \<Rightarrow> 'r"
  VideoSettings_fromBuffer :: "byte list \<Rightarrow> 'vs option"
  MAGIC_BYTES_MESSAGE :: "byte list"
  DeviceMessage_fromBuffer :: "byte list \<Rightarrow> 'dm option"
  utf8ByteArrayToString :: "byte list \<Rightarrow> string"

definition DEVICE_NAME_FIELD_LENGTH :: nat where
  "DEVICE_NAME_FIELD_LENGTH = 64"

definition MAGIC_BYTES_INITIAL :: "byte list" where
  "MAGIC_BYTES_INITIAL = map of_char ''scrcpy_initial''"

text \<open>
  Modelled from the spec: \<^verbatim>\<open>Util.filterTrailingZeroes\<close> is not among the sources; the
  spec says of the device name field "NUL-padded, trailing NULs stripped".
\<close>

definition filterTrailingZeroes :: "byte list \<Rightarrow> byte list" where
  "filterTrailingZeroes bytes = rev (dropWhile (\<lambda>b. b = 0) (rev bytes))"

definition emit ::
  "('di, 'si, 'vs, 'dm) emitted \<Rightarrow> ('di, 'si, 'vs, 'dm, 'r) StreamReceiver
     \<Rightarrow> ('di, 'si, 'vs, 'dm, 'r) StreamReceiver" where
  "emit e s = s\<lparr>emitted := emitted s @ [e]\<rparr>"

section \<open>The handshake\<close>

text \<open>
  \<^verbatim>\<open>triggerInitialInfoEvents\<close>: once a handshake has been received, emit the encoders,
  the client statistics and one combined record per display, the connection count
  being 0 when the map has none (\<^verbatim>\<open>get(displayId) || 0\<close>).
\<close>

definition combinedInfo ::
  "('di, 'si, 'vs, 'dm, 'r) StreamReceiver \<Rightarrow> int \<times> 'di \<Rightarrow> ('di, 'si, 'vs) DisplayCombinedInfo" where
  "combinedInfo s entry =
     \<lparr>displayInfo = snd entry,
      videoSettings = Map_get (videoSettingsMap s) (fst entry),
      screenInfo = Map_get (screenInfoMap s) (fst entry),
      connectionCount = (case Map_get (connectionCountMap s) (fst entry) of
                           None \<Rightarrow> 0 | Some c \<Rightarrow> c)\<rparr>"

definition triggerInitialInfoEvents ::
  "('di, 'si, 'vs, 'dm, 'r) StreamReceiver \<Rightarrow> ('di, 'si, 'vs, 'dm, 'r) StreamReceiver" where
  "triggerInitialInfoEvents s =
     (if hasInitialInfo s then
        emit (Emit_displayInfo (map (combinedInfo s) (displayInfoMap s)))
          (emit (Emit_clientsStats (clientId s) (deviceName s))
            (emit (Emit_encoders (encodersSet s)) s))
      else s)"

text \<open>
  The optional sub-records of a display: a length, and when it is not zero that many
  bytes handed to the decoder. The result is the decoded value, if any, and the rest of
  the buffer.
\<close>

definition readOptional ::
  "(byte list \<Rightarrow> 'a option) \<Rightarrow> byte list \<Rightarrow> error + ('a option \<times> byte list)" where
  "readOptional fromBuffer rest =
     (case readInt32BE rest of
        Inl e \<Rightarrow> Inl e
      | Inr bytesCount \<Rightarrow>
          (let rest1 = Buffer_slice_from rest 4 in
           if bytesCount \<noteq> 0 then
             (case fromBuffer (Buffer_slice rest1 0 bytesCount) of
                None \<Rightarrow> Inl DecodeError
              | Some v \<Rightarrow> Inr (Some v, Buffer_slice_from rest1 bytesCount))
           else Inr (None, rest1)))"

text \<open>
  One turn of the loop over the displays. Each \<^verbatim>\<open>set\<close> happens as soon as its value
  has been read, so a turn that throws returns the receiver with the entries stored
  before the throw.
\<close>

definition displayEntry ::
  "('di, 'si, 'vs, 'dm, 'r) externals \<Rightarrow> byte list \<Rightarrow> ('di, 'si, 'vs, 'dm, 'r) StreamReceiver
     \<Rightarrow> ('di, 'si, 'vs, 'dm, 'r) StreamReceiver \<times> (error + byte list)" where
  "displayEntry ext rest s =
     (case DisplayInfo_fromBuffer ext (Buffer_slice rest 0 (int (BUFFER_LENGTH ext))) of
        None \<Rightarrow> (s, Inl DecodeError)
      | Some di \<Rightarrow>
          (let did = displayId ext di;
               s1 = s\<lparr>displayInfoMap := Map_set did di (displayInfoMap s)\<rparr>;
               rest1 = Buffer_slice_from rest (int (BUFFER_LENGTH ext))
           in case readInt32BE rest1 of
                Inl e \<Rightarrow> (s1, Inl e)
              | Inr count \<Rightarrow>
                  (let s2 = s1\<lparr>connectionCountMap := Map_set did count (connectionCountMap s1)\<rparr>
                   in case readOptional (ScreenInfo_fromBuffer ext) (Buffer_slice_from rest1 4) of
                        Inl e \<Rightarrow> (s2, Inl e)
                      | Inr (si, rest2) \<Rightarrow>
                          (let s3 = (case si of
                                       None \<Rightarrow> s2
                                     | Some v \<Rightarrow> s2\<lparr>screenInfoMap := Map_set did v (screenInfoMap s2)\<rparr>)
                           in case readOptional (VideoSettings_fromBuffer ext) rest2 of
                                Inl e \<Rightarrow> (s3, Inl e)
                              | Inr (vs, rest3) \<Rightarrow>
                                  ((case vs of
                                      None \<Rightarrow> s3
                                    | Some v \<Rightarrow> s3\<lparr>videoSettingsMap := Map_set did v (videoSettingsMap s3)\<rparr>),
                                   Inr rest3)))))"

primrec displaysLoop ::
  "('di, 'si, 'vs, 'dm, 'r) externals \<Rightarrow> nat \<Rightarrow> byte list \<Rightarrow> ('di, 'si, 'vs, 'dm, 'r) StreamReceiver
     \<Rightarrow> ('di, 'si, 'vs, 'dm, 'r) StreamReceiver \<times> (error + byte list)" where
  "displaysLoop ext 0 rest s = (s, Inr rest)"
| "displaysLoop ext (Suc n) rest s =
     (case displayEntry ext rest s of
        (s1, Inl e) \<Rightarrow> (s1, Inl e)
      | (s1, Inr rest1) \<Rightarrow> displaysLoop ext n rest1 s1)"

primrec encodersLoop ::
  "('di, 'si, 'vs, 'dm, 'r) externals \<Rightarrow> nat \<Rightarrow> byte list \<Rightarrow> ('di, 'si, 'vs, 'dm, 'r) StreamReceiver
     \<Rightarrow> ('di, 'si, 'vs, 'dm, 'r) StreamReceiver \<times> (error + byte list)" where
  "encodersLoop ext 0 rest s = (s, Inr rest)"
| "encodersLoop ext (Suc n) rest s =
     (case readInt32BE rest of
        Inl e \<Rightarrow> (s, Inl e)
      | Inr nameLength \<Rightarrow>
          (let rest1 = Buffer_slice_from rest 4;
               nameBytes = Buffer_slice rest1 0 nameLength;
               rest2 = Buffer_slice_from rest1 nameLength;
               name = utf8ByteArrayToString ext nameBytes
           in encodersLoop ext n rest2 (s\<lparr>encodersSet := Set_add name (encodersSet s)\<rparr>)))"

text \<open>
  \<^verbatim>\<open>handleInitialInfo\<close>. The result is the receiver as the call leaves it and the
  error it threw, if any. The typed-array view of the name field throws when the frame
  is shorter than the magic prefix and the name field together. A loop bound that is
  not positive gives no turn.
\<close>

definition handleInitialInfo ::
  "('di, 'si, 'vs, 'dm, 'r) externals \<Rightarrow> byte list \<Rightarrow> ('di, 'si, 'vs, 'dm, 'r) StreamReceiver
     \<Rightarrow> ('di, 'si, 'vs, 'dm, 'r) StreamReceiver \<times> error option" where
  "handleInitialInfo ext data s =
     (let offset = length MAGIC_BYTES_INITIAL in
      if length data < offset + DEVICE_NAME_FIELD_LENGTH then (s, Some RangeError)
      else
        (let nameBytes = take DEVICE_NAME_FIELD_LENGTH (drop offset data);
             rest = drop (offset + DEVICE_NAME_FIELD_LENGTH) data
         in case readInt32BE rest of
              Inl e \<Rightarrow> (s, Some e)
            | Inr displaysCount \<Rightarrow>
                (case displaysLoop ext (nat displaysCount) (Buffer_slice_from rest 4)
                        (s\<lparr>displayInfoMap := [], connectionCountMap := [],
                           screenInfoMap := [], videoSettingsMap := []\<rparr>) of
                   (s1, Inl e) \<Rightarrow> (s1, Some e)
                 | (s1, Inr rest1) \<Rightarrow>
                     (let s2 = s1\<lparr>encodersSet := []\<rparr>
                      in case readInt32BE rest1 of
                           Inl e \<Rightarrow> (s2, Some e)
                         | Inr encodersCount \<Rightarrow>
                             (case encodersLoop ext (nat encodersCount) (Buffer_slice_from rest1 4) s2 of
                                (s3, Inl e) \<Rightarrow> (s3, Some e)
                              | (s3, Inr rest2) \<Rightarrow>
                                  (case readInt32BE rest2 of
                                     Inl e \<Rightarrow> (s3, Some e)
                                   | Inr cid \<Rightarrow>
                                       (triggerInitialInfoEvents
                                          (s3\<lparr>clientId := cid,
                                              deviceName := utf8ByteArrayToString ext
                                                              (filterTrailingZeroes nameBytes),
                                              hasInitialInfo := True\<rparr>),
                                        None)))))))"

section \<open>Dispatching an inbound message\<close>

fun EqualArrays_loop :: "byte list \<Rightarrow> byte list \<Rightarrow> bool" where
  "EqualArrays_loop [] bs = True"
| "EqualArrays_loop (a # as) [] = False"
| "EqualArrays_loop (a # as) (b # bs) = (if a \<noteq> b then False else EqualArrays_loop as bs)"

definition EqualArrays :: "byte list \<Rightarrow> byte list \<Rightarrow> bool" where
  "EqualArrays a b = (if length a \<noteq> length b then False else EqualArrays_loop a b)"

text \<open>The payload of a socket message: an \<^verbatim>\<open>ArrayBuffer\<close>, or anything else (a string).\<close>

datatype message_data = ArrayBuffer "byte list" | NotArrayBuffer

definition onSocketMessage ::
  "('di, 'si, 'vs, 'dm, 'r) externals \<Rightarrow> message_data \<Rightarrow> ('di, 'si, 'vs, 'dm, 'r) StreamReceiver
     \<Rightarrow> ('di, 'si, 'vs, 'dm, 'r) StreamReceiver \<times> error option" where
  "onSocketMessage ext msg s =
     (case msg of
        NotArrayBuffer \<Rightarrow> (s, None)
      | ArrayBuffer data \<Rightarrow>
          (if length MAGIC_BYTES_INITIAL < length data then
             (let magicBytes = take (length MAGIC_BYTES_INITIAL) data in
              if EqualArrays magicBytes MAGIC_BYTES_INITIAL then handleInitialInfo ext data s
              else if EqualArrays magicBytes (MAGIC_BYTES_MESSAGE ext) then
                (case DeviceMessage_fromBuffer ext data of
                   None \<Rightarrow> (s, Some DecodeError)
                 | Some message \<Rightarrow> (emit (Emit_deviceMessage message) s, None))
              else (emit (Emit_video data) s, None))
           else (emit (Emit_video data) s, None)))"

section \<open>The action log\<close>

text \<open>
  The record stored under a key of \<^verbatim>\<open>actionMaps\<close>, \<open>None\<close> for \<^verbatim>\<open>undefined\<close>.
  Every address in \<open>actionMaps\<close> was handed out by \<open>sendEvent\<close> and is in the store.
\<close>

definition actionMaps_get ::
  "('di, 'si, 'vs, 'dm, 'r) StreamReceiver \<Rightarrow> int \<Rightarrow> 'r actionMap option" where
  "actionMaps_get s key =
     (case Map_get (actionMaps s) key of
        None \<Rightarrow> None
      | Some a \<Rightarrow> (if a < length (objects s) then Some (objects s ! a) else None))"

text \<open>
  \<^verbatim>\<open>getLastAction\<close>: walk the keys in insertion order up to the record's own time,
  remembering the key before it; the walk starts from key 0.
\<close>

fun lastKey_loop :: "int \<Rightarrow> int list \<Rightarrow> int \<Rightarrow> int" where
  "lastKey_loop current_action_time [] lastKey = lastKey"
| "lastKey_loop current_action_time (key # keys) lastKey =
     (if key = current_action_time then lastKey
      else lastKey_loop current_action_time keys key)"

definition getLastAction ::
  "('di, 'si, 'vs, 'dm, 'r) StreamReceiver \<Rightarrow> 'r actionMap \<Rightarrow> 'r actionMap option" where
  "getLastAction s am =
     actionMaps_get s (lastKey_loop (action_time am) (map fst (actionMaps s)) 0)"

text \<open>
  \<^verbatim>\<open>getLastExecutedAction\<close>: the same walk, remembering the last key whose record has
  a truthy \<^verbatim>\<open>executed\<close>.
\<close>

fun lastExecutedKey_loop ::
  "('di, 'si, 'vs, 'dm, 'r) StreamReceiver \<Rightarrow> int \<Rightarrow> int list \<Rightarrow> int \<Rightarrow> int" where
  "lastExecutedKey_loop s current_action_time [] lastExecutedKey = lastExecutedKey"
| "lastExecutedKey_loop s current_action_time (key # keys) lastExecutedKey =
     (if key = current_action_time then lastExecutedKey
      else lastExecutedKey_loop s current_action_time keys
             (case actionMaps_get s key of
                None \<Rightarrow> lastExecutedKey
              | Some r \<Rightarrow> (if executed r = Some True then key else lastExecutedKey)))"

definition getLastExecutedAction ::
  "('di, 'si, 'vs, 'dm, 'r) StreamReceiver \<Rightarrow> 'r actionMap \<Rightarrow> 'r actionMap option" where
  "getLastExecutedAction s am =
     actionMaps_get s (lastExecutedKey_loop s (action_time am) (map fst (actionMaps s)) 0)"

text \<open>
  \<^verbatim>\<open>judgeConcurrency\<close>. Reading a property of the preceding record throws a
  TypeError when there is none.
\<close>

definition judgeConcurrency ::
  "('di, 'si, 'vs, 'dm, 'r) StreamReceiver \<Rightarrow> 'r actionMap \<Rightarrow> error + bool" where
  "judgeConcurrency s am =
     (let actionType = type (ev am) in
      if actionType \<in> set [1, 4, 5, 6, 7, 8, 9, 10, 11, 101, 102] then Inr False
      else if actionType = 0 then
        (if action (ev am) = Some 1 then Inr True
         else if (case keycode (ev am) of None \<Rightarrow> False
                  | Some k \<Rightarrow> k \<in> set [3, 4, 24, 25, 26, 187]) then Inr False
         else
           (case getLastAction s am of
              None \<Rightarrow> Inl TypeError
            | Some lastAction \<Rightarrow>
                (if type (ev lastAction) = 0 \<and> action (ev lastAction) = Some 0
                 then Inr True else Inr False)))
      else if actionType = 2 \<and> action (ev am) = Some 0 then Inr False
      else if actionType = 2 \<and> action (ev am) = Some 1 then Inr True
      else if actionType = 2 \<and> action (ev am) = Some 2 then Inr True
      else if actionType = 3 then
        (case getLastAction s am of
           None \<Rightarrow> Inl TypeError
         | Some lastAction \<Rightarrow> (if type (ev lastAction) = 3 then Inr True else Inr False))
      else Inr False)"

text \<open>
  \<^verbatim>\<open>getLastNonConcurrencyAction\<close>: step back through the log while the record at hand
  is concurrent. The loop of the source has no bound, so the walk takes fuel and is
  \<open>None\<close> when the fuel is used up. Judging \<^verbatim>\<open>undefined\<close> throws a TypeError.
\<close>

primrec nonConcurrencyWalk ::
  "nat \<Rightarrow> ('di, 'si, 'vs, 'dm, 'r) StreamReceiver \<Rightarrow> 'r actionMap option
     \<Rightarrow> (error + 'r actionMap) option" where
  "nonConcurrencyWalk 0 s lastAction = None"
| "nonConcurrencyWalk (Suc n) s lastAction =
     (case lastAction of
        None \<Rightarrow> Some (Inl TypeError)
      | Some la \<Rightarrow>
          (case judgeConcurrency s la of
             Inl e \<Rightarrow> Some (Inl e)
           | Inr concurrent \<Rightarrow>
               (if concurrent then nonConcurrencyWalk n s (getLastAction s la)
                else Some (Inr la))))"

definition getLastNonConcurrencyAction ::
  "('di, 'si, 'vs, 'dm, 'r) StreamReceiver \<Rightarrow> 'r actionMap \<Rightarrow> (error + 'r actionMap) option" where
  "getLastNonConcurrencyAction s am =
     nonConcurrencyWalk (Suc (length (actionMaps s))) s (getLastAction s am)"

section \<open>Submitting a control message\<close>

text \<open>
  \<^verbatim>\<open>sendActionEvent\<close> writes the message to the socket when it is open and queues it
  otherwise. \<^verbatim>\<open>sendAction\<close> and \<^verbatim>\<open>sendActionConcurrency\<close> post the logged record
  with a \<^verbatim>\<open>concurrency\<close> flag; the answer to \<^verbatim>\<open>sendAction\<close> arrives later and is
  handled by \<open>sendAction_then\<close>, the answer to \<^verbatim>\<open>sendActionConcurrency\<close> is only
  printed.
\<close>

definition sendActionEvent ::
  "ControlMessage \<Rightarrow> ('di, 'si, 'vs, 'dm, 'r) StreamReceiver \<Rightarrow> ('di, 'si, 'vs, 'dm, 'r) StreamReceiver" where
  "sendActionEvent event s =
     (if ws_open s then s\<lparr>ws_sent := ws_sent s @ [event]\<rparr>
      else s\<lparr>events := events s @ [event]\<rparr>)"

definition sendAction ::
  "'r actionMap \<Rightarrow> bool \<Rightarrow> ('di, 'si, 'vs, 'dm, 'r) StreamReceiver \<Rightarrow> ('di, 'si, 'vs, 'dm, 'r) StreamReceiver" where
  "sendAction action_json concurrency s = s\<lparr>fetched := fetched s @ [(action_json, concurrency)]\<rparr>"

definition sendActionConcurrency ::
  "'r actionMap \<Rightarrow> bool \<Rightarrow> ('di, 'si, 'vs, 'dm, 'r) StreamReceiver \<Rightarrow> ('di, 'si, 'vs, 'dm, 'r) StreamReceiver" where
  "sendActionConcurrency action_json concurrency s =
     s\<lparr>fetched := fetched s @ [(action_json, concurrency)]\<rparr>"

text \<open>
  The outcome of the request: the promise is rejected (no connection, a body that is
  not JSON, a JSON body that is not an object) and the \<^verbatim>\<open>catch\<close> only prints, or the
  body is an object and its \<^verbatim>\<open>action_flag\<close> and \<^verbatim>\<open>action_time\<close> properties,
  present or not, are stored.
\<close>

datatype auth_result = Rejected | Answer "bool option" "int option"

definition sendAction_then ::
  "auth_result \<Rightarrow> ('di, 'si, 'vs, 'dm, 'r) StreamReceiver \<Rightarrow> ('di, 'si, 'vs, 'dm, 'r) StreamReceiver" where
  "sendAction_then result s =
     (case result of
        Rejected \<Rightarrow> s
      | Answer flag time \<Rightarrow>
          s\<lparr>this_action_flag := flag,
            this_action_time := (case time of None \<Rightarrow> TimeUndefined | Some t \<Rightarrow> TimeNumber t)\<rparr>)"

text \<open>
  The comparison \<^verbatim>\<open>this.action_time == actionMap.get('action_time')\<close> with a number on
  the right: the empty string equals 0 only.
\<close>

definition time_equals :: "js_time \<Rightarrow> int \<Rightarrow> bool" where
  "time_equals t n =
     (case t of TimeEmptyString \<Rightarrow> n = 0 | TimeNumber m \<Rightarrow> m = n | TimeUndefined \<Rightarrow> False)"

definition set_executed ::
  "nat \<Rightarrow> bool \<Rightarrow> ('di, 'si, 'vs, 'dm, 'r) StreamReceiver \<Rightarrow> ('di, 'si, 'vs, 'dm, 'r) StreamReceiver" where
  "set_executed a b s = s\<lparr>objects := (objects s)[a := (objects s ! a)\<lparr>executed := Some b\<rparr>]\<rparr>"

text \<open>
  \<^verbatim>\<open>sendEvent\<close> is asynchronous: it runs until it returns, throws, or suspends at an
  \<^verbatim>\<open>await\<close>, and other submissions and answers run while it is suspended. Each
  stretch between two suspensions is one function of the model. \<open>Sleeping a due\<close> is
  the submission of the record at address \<open>a\<close> waiting in the timer of the polling
  loop: \<^verbatim>\<open>setTimeout(resolve, 100)\<close>, called at time \<open>t\<close>, resumes the submission at
  time \<open>t + 100\<close> or later, and \<open>due\<close> is that \<open>t + 100\<close>. \<open>Fetching a\<close> is the
  submission waiting for the answer of the authorization service, \<open>Diverged\<close> a walk
  to the non-concurrent ancestor that never ends.
\<close>

datatype progress = Returned | Thrown error | Sleeping nat int | Fetching nat | Diverged

text \<open>The end of the concurrent path, once the polling loop is left.\<close>

definition concurrentDecision ::
  "ControlMessage \<Rightarrow> nat \<Rightarrow> ('di, 'si, 'vs, 'dm, 'r) StreamReceiver
     \<Rightarrow> ('di, 'si, 'vs, 'dm, 'r) StreamReceiver \<times> progress" where
  "concurrentDecision event a s =
     (case getLastAction s (objects s ! a) of
        None \<Rightarrow> (s, Thrown TypeError)
      | Some lastAction \<Rightarrow>
          (if executed lastAction = Some True then
             (set_executed a True
                (sendActionConcurrency (objects s ! a) True (sendActionEvent event s)),
              Returned)
           else (set_executed a False s, Returned)))"

text \<open>
  The first step of \<^verbatim>\<open>sendEvent\<close>: build \<^verbatim>\<open>action_json\<close> from the time
  \<open>now\<close> (the value of \<^verbatim>\<open>Date.now()\<close>), the message, the content rectangle of
  the first entry of \<^verbatim>\<open>screenInfoMap\<close> and the device name, copy it into a new
  \<^verbatim>\<open>actionMap\<close> and store that in \<^verbatim>\<open>actionMaps\<close> under the time.
\<close>

definition action_json ::
  "('di, 'si, 'vs, 'dm, 'r) externals \<Rightarrow> ControlMessage \<Rightarrow> int
     \<Rightarrow> ('di, 'si, 'vs, 'dm, 'r) StreamReceiver \<Rightarrow> 'r actionMap" where
  "action_json ext event now s =
     \<lparr>action_time = now, ev = event,
      contentRect = (case screenInfoMap s of
                       [] \<Rightarrow> None
                     | entry # _ \<Rightarrow> Some (ScreenInfo_contentRect ext (snd entry))),
      device_name = deviceName s, executed = None\<rparr>"

definition logAction ::
  "('di, 'si, 'vs, 'dm, 'r) externals \<Rightarrow> ControlMessage \<Rightarrow> int
     \<Rightarrow> ('di, 'si, 'vs, 'dm, 'r) StreamReceiver \<Rightarrow> ('di, 'si, 'vs, 'dm, 'r) StreamReceiver" where
  "logAction ext event now s =
     s\<lparr>objects := objects s @ [action_json ext event now s],
       actionMaps := Map_set now (length (objects s)) (actionMaps s)\<rparr>"

text \<open>
  \<^verbatim>\<open>sendEvent\<close> from the call to the first suspension. \<open>a\<close> is the address of the
  new record.
\<close>

definition sendEvent ::
  "('di, 'si, 'vs, 'dm, 'r) externals \<Rightarrow> ControlMessage \<Rightarrow> int
     \<Rightarrow> ('di, 'si, 'vs, 'dm, 'r) StreamReceiver
     \<Rightarrow> ('di, 'si, 'vs, 'dm, 'r) StreamReceiver \<times> progress" where
  "sendEvent ext event now s =
     (let actionMap = action_json ext event now s;
          a = length (objects s);
          s1 = logAction ext event now s
      in
      if type event \<in> set [4, 8, 9, 10, 101, 102] then
        (set_executed a True (sendAction actionMap False (sendActionEvent event s1)), Returned)
      else
        (case judgeConcurrency s1 actionMap of
           Inl e \<Rightarrow> (s1, Thrown e)
         | Inr concurrent \<Rightarrow>
             (if concurrent then
                (case getLastNonConcurrencyAction s1 actionMap of
                   None \<Rightarrow> (s1, Diverged)
                 | Some (Inl e) \<Rightarrow> (s1, Thrown e)
                 | Some (Inr lastNonConcurrencyAction) \<Rightarrow>
                     (case getLastAction s1 actionMap of
                        None \<Rightarrow> (s1, Thrown TypeError)
                      | Some lastAction \<Rightarrow>
                          (if executed lastAction \<noteq> None then concurrentDecision event a s1
                           else (s1, Sleeping a (now + 100)))))
              else
                (case getLastExecutedAction s1 actionMap of
                   None \<Rightarrow> (s1, Thrown TypeError)
                 | Some lastExecutedAction \<Rightarrow>
                     (if 500 < action_time actionMap - action_time lastExecutedAction
                      then (sendAction actionMap False s1, Fetching a)
                      else (s1, Returned))))))"

text \<open>
  One turn of the polling loop, for the submission \<open>Sleeping a due\<close> at time
  \<open>now\<close>. Before \<open>due\<close> the timer has not fired and the submission stays as it
  is. From \<open>due\<close> on it resumes: it reads whether the preceding record has
  \<^verbatim>\<open>executed\<close>, leaves the loop when more than 3000 ms have passed since the record
  was logged or when the field is there, and otherwise sets the next timer of 100 ms.
\<close>

definition sendEvent_afterSleep ::
  "ControlMessage \<Rightarrow> nat \<Rightarrow> int \<Rightarrow> int \<Rightarrow> ('di, 'si, 'vs, 'dm, 'r) StreamReceiver
     \<Rightarrow> ('di, 'si, 'vs, 'dm, 'r) StreamReceiver \<times> progress" where
  "sendEvent_afterSleep event a due now s =
     (if now < due then (s, Sleeping a due)
      else
        (case getLastAction s (objects s ! a) of
           None \<Rightarrow> (s, Thrown TypeError)
         | Some lastAction \<Rightarrow>
             (if 3000 < now - action_time (objects s ! a) then concurrentDecision event a s
              else if executed lastAction \<noteq> None then concurrentDecision event a s
              else (s, Sleeping a (now + 100)))))"

text \<open>
  The non-concurrent path from the answer of the authorization service: the callback
  of \<^verbatim>\<open>sendAction\<close> stores the answer, then \<^verbatim>\<open>sendEvent\<close> compares the stored values
  with its record.
\<close>

definition sendEvent_afterFetch ::
  "ControlMessage \<Rightarrow> nat \<Rightarrow> auth_result \<Rightarrow> ('di, 'si, 'vs, 'dm, 'r) StreamReceiver
     \<Rightarrow> ('di, 'si, 'vs, 'dm, 'r) StreamReceiver \<times> progress" where
  "sendEvent_afterFetch event a result s =
     (let s1 = sendAction_then result s in
      if time_equals (this_action_time s1) (action_time (objects s1 ! a)) then
        (if this_action_flag s1 = Some True then
           (set_executed a True (sendActionEvent event s1), Returned)
         else (set_executed a False s1, Returned))
      else (set_executed a False s1, Returned))"

text \<open>The receiver as its constructor leaves it, the socket open or not.\<close>

definition initial :: "bool \<Rightarrow> ('di, 'si, 'vs, 'dm, 'r) StreamReceiver" where
  "initial opened =
     \<lparr>events = [], encodersSet = [], clientId = - 1, deviceName = [],
      displayInfoMap = [], connectionCountMap = [], screenInfoMap = [],
      videoSettingsMap = [], hasInitialInfo = False, actionMaps = [],
      this_action_time = TimeEmptyString, this_action_flag = Some False,
      objects = [], ws_open = opened, ws_sent = [], emitted = [], fetched = []\<rparr>"

text \<open>
  Modelled from the spec: the numeric codes of the pointer actions are constants of
  \<^verbatim>\<open>MotionEvent\<close>, which is not among the sources, and the spec names the actions
  only (down, up, move). The codes are Android's; for 0 and 1 the receiver's own rule
  for key events agrees (1 is the release, 0 the press).
\<close>

definition ACTION_DOWN :: int where
  "ACTION_DOWN = 0"

definition ACTION_UP :: int where
  "ACTION_UP = 1"

definition ACTION_MOVE :: int where
  "ACTION_MOVE = 2"

text \<open>
  The shape of the action log in every state the receiver reaches when the clock never
  reads 0: no key twice, no key 0, and under every key the address of a record logged
  at that time.
\<close>

definition log_wf :: "('di, 'si, 'vs, 'dm, 'r) StreamReceiver \<Rightarrow> bool" where
  "log_wf s \<longleftrightarrow>
     distinct (map fst (actionMaps s)) \<and> 0 \<notin> set (map fst (actionMaps s))
     \<and> (\<forall>entry \<in> set (actionMaps s).
           snd entry < length (objects s) \<and> action_time (objects s ! snd entry) = fst entry)"

section \<open>An instance to run the model on\<close>

text \<open>
  An instance of the parameters: the sub-records are kept as the bytes they were
  decoded from, a display record is 24 bytes that start with its identifier, and
  strings are read byte by byte.
\<close>

type_synonym raw_receiver =
  "(byte list, byte list, byte list, byte list, byte list) StreamReceiver"

definition raw_externals ::
  "(byte list, byte list, byte list, byte list, byte list) externals" where
  "raw_externals =
     \<lparr>BUFFER_LENGTH = 24,
      DisplayInfo_fromBuffer = (\<lambda>b. if length b < 24 then None else Some b),
      displayId = (\<lambda>b. case readInt32BE b of Inl e \<Rightarrow> 0 | Inr i \<Rightarrow> i),
      ScreenInfo_fromBuffer = Some,
      ScreenInfo_contentRect = (\<lambda>b. b),
      VideoSettings_fromBuffer = Some,
      MAGIC_BYTES_MESSAGE = map of_char ''scrcpy_message'',
      DeviceMessage_fromBuffer = (\<lambda>b. Some (drop 14 b)),
      utf8ByteArrayToString = map (\<lambda>b. char_of (unat b))\<rparr>"

definition keyEvent :: "int \<Rightarrow> int \<Rightarrow> ControlMessage" where
  "keyEvent a k = \<lparr>type = 0, action = Some a, keycode = Some k\<rparr>"

definition touchEvent :: "int \<Rightarrow> ControlMessage" where
  "touchEvent a = \<lparr>type = 2, action = Some a, keycode = None\<rparr>"

definition plainEvent :: "int \<Rightarrow> ControlMessage" where
  "plainEvent t = \<lparr>type = t, action = None, keycode = None\<rparr>"

text \<open>
  A session with the socket open: a message of type 4 is submitted at time 1000 (it
  takes the fast path), then the key 29 is pressed at time 2000 (the submission waits
  for the authorization service).
\<close>

definition after_first :: raw_receiver where
  "after_first = fst (sendEvent raw_externals (plainEvent 4) 1000 (initial True))"

definition after_press :: raw_receiver where
  "after_press = fst (sendEvent raw_externals (keyEvent 0 29) 2000 after_first)"

text \<open>
  The part of the receiver that a handshake decodes: the four maps keyed by display,
  the encoders, the client identifier and the device name.
\<close>

definition displayMaps ::
  "('di, 'si, 'vs, 'dm, 'r) StreamReceiver
     \<Rightarrow> (int \<times> 'di) list \<times> (int \<times> int) list \<times> (int \<times> 'si) list \<times> (int \<times> 'vs) list" where
  "displayMaps s = (displayInfoMap s, connectionCountMap s, screenInfoMap s, videoSettingsMap s)"


text \<open>
  A handshake frame: the magic prefix, the device name "Pixel" padded to 64 bytes, one
  display (identifier 0) with connection count 1 and neither screen info nor video
  settings, one encoder "h264", client identifier 7. \<open>connected_session\<close> is the
  receiver after this frame.
\<close>

definition example_handshake :: "byte list" where
  "example_handshake =
     MAGIC_BYTES_INITIAL @ map of_char ''Pixel'' @ replicate 59 0
     @ [0, 0, 0, 1]
     @ replicate 24 0 @ [0, 0, 0, 1] @ [0, 0, 0, 0] @ [0, 0, 0, 0]
     @ [0, 0, 0, 1] @ [0, 0, 0, 4] @ map of_char ''h264''
     @ [0, 0, 0, 7]"

definition connected_session :: raw_receiver where
  "connected_session = fst (handleInitialInfo raw_externals example_handshake (initial True))"

text \<open>
  What a frame long enough to hold the display count leaves in the four maps, whatever
  they held before: \<open>decodedDisplays\<close> is the loop over the displays run on empty
  maps, up to its end or its throw, and \<open>displaysOutcome\<close> is how that loop ends, the
  error thrown or the rest of the buffer. \<open>decodedEncoders\<close> is what the loop over
  the encoders, run on the empty set from that rest, has stored when it ends or throws
  (nothing when the encoder count cannot be read).
\<close>

definition decodedDisplays ::
  "('di, 'si, 'vs, 'dm, 'r) externals \<Rightarrow> byte list
     \<Rightarrow> (int \<times> 'di) list \<times> (int \<times> int) list \<times> (int \<times> 'si) list \<times> (int \<times> 'vs) list" where
  "decodedDisplays ext data =
     (let rest = drop (length MAGIC_BYTES_INITIAL + DEVICE_NAME_FIELD_LENGTH) data in
      case readInt32BE rest of
        Inl e \<Rightarrow> ([], [], [], [])
      | Inr displaysCount \<Rightarrow>
          displayMaps (fst (displaysLoop ext (nat displaysCount) (Buffer_slice_from rest 4)
                              (initial False))))"




text \<open>
  A pointer down at time 2000 and a pointer move at time 2010. The move waits for the
  down; its timer fires every 100 ms, thirty times from time 2110 to time 5010, and
  each time it sleeps again; then the authorization service allows the down; then the
  timer fires at time 5110.
\<close>

definition late_wakeups :: "int list" where
  "late_wakeups = map (\<lambda>k. 2010 + 100 * int k) [1..<31]"

definition late_down :: raw_receiver where
  "late_down = fst (sendEvent raw_externals (touchEvent ACTION_DOWN) 2000 after_first)"

definition late_move :: raw_receiver where
  "late_move = fst (sendEvent raw_externals (touchEvent ACTION_MOVE) 2010 late_down)"

definition late_poll :: raw_receiver where
  "late_poll = fold (\<lambda>t s. fst (sendEvent_afterSleep (touchEvent ACTION_MOVE) 2 t t s))
                 late_wakeups late_move"

definition late_answer :: raw_receiver where
  "late_answer = fst (sendEvent_afterFetch (touchEvent ACTION_DOWN) 1
                        (Answer (Some True) (Some 2000)) late_poll)"

text \<open>
  The same pointer down and pointer move when the authorization service allows the
  down before the move is woken a second time.
\<close>

definition prompt_answer :: raw_receiver where
  "prompt_answer = fst (sendEvent_afterFetch (touchEvent ACTION_DOWN) 1
                          (Answer (Some True) (Some 2000)) late_move)"

text \<open>
  Two messages submitted in the same millisecond, 2000: one of type 8, which takes the
  fast path, then a pointer down, which waits for the authorization service. The
  answer to the request of the first, with the time 2000 and the flag true, arrives
  while the second is waiting.
\<close>

definition same_ms_fast :: raw_receiver where
  "same_ms_fast = fst (sendEvent raw_externals (plainEvent 8) 2000 after_first)"

definition same_ms_down :: raw_receiver where
  "same_ms_down = fst (sendEvent raw_externals (touchEvent ACTION_DOWN) 2000 same_ms_fast)"

definition same_ms_answer :: raw_receiver where
  "same_ms_answer = sendAction_then (Answer (Some True) (Some 2000)) same_ms_down"

section \<open>Properties of the action log\<close>

lemma lastKey_loop_in: "lastKey_loop c keys k \<in> insert k (set keys)"
  by (induction keys arbitrary: k) auto

lemma lastKey_loop_nth:
  assumes "distinct keys" and "i < length keys"
  shows "lastKey_loop (keys ! i) keys k = (if i = 0 then k else keys ! (i - 1))"
  using assms
proof (induction keys arbitrary: i k)
  case Nil
  then show ?case by simp
next
  case (Cons key ks)
  show ?case
  proof (cases i)
    case 0
    then show ?thesis by simp
  next
    case (Suc j)
    then have j: "j < length ks" using Cons.prems by simp
    then have "ks ! j \<noteq> key" using Cons.prems(1) by auto
    then show ?thesis
      using Cons.IH [of j key] Cons.prems(1) j Suc by (cases j) auto
  qed
qed

lemma actionMaps_get_absent:
  assumes "k \<notin> set (map fst (actionMaps s))"
  shows "actionMaps_get s k = None"
proof -
  have "map_of (actionMaps s) k = None" using assms by (simp add: map_of_eq_None_iff)
  then show ?thesis by (simp add: actionMaps_get_def Map_get_def)
qed

lemma actionMaps_get_nth:
  assumes "log_wf s" and "i < length (actionMaps s)"
  shows "actionMaps_get s (map fst (actionMaps s) ! i) = Some (objects s ! snd (actionMaps s ! i))
       \<and> action_time (objects s ! snd (actionMaps s ! i)) = map fst (actionMaps s) ! i"
proof -
  have mem: "actionMaps s ! i \<in> set (actionMaps s)" using assms(2) by simp
  then have "(fst (actionMaps s ! i), snd (actionMaps s ! i)) \<in> set (actionMaps s)" by simp
  then have "map_of (actionMaps s) (fst (actionMaps s ! i)) = Some (snd (actionMaps s ! i))"
    using assms(1) by (simp add: log_wf_def)
  moreover have "snd (actionMaps s ! i) < length (objects s)
      \<and> action_time (objects s ! snd (actionMaps s ! i)) = fst (actionMaps s ! i)"
    using assms(1) mem by (simp add: log_wf_def)
  ultimately show ?thesis
    using assms(2) by (simp add: actionMaps_get_def Map_get_def)
qed

text \<open>
  \<^verbatim>\<open>getLastAction\<close> returns the record stored under the key that stands just before
  the record's own key in the log, and nothing for the first key.
\<close>

lemma getLastAction_preceding:
  assumes "log_wf s" and "i < length (actionMaps s)"
    and "action_time am = map fst (actionMaps s) ! i"
  shows "getLastAction s am
           = (if i = 0 then None else Some (objects s ! snd (actionMaps s ! (i - 1))))"
proof -
  have d: "distinct (map fst (actionMaps s))" and z: "0 \<notin> set (map fst (actionMaps s))"
    using assms(1) by (simp_all add: log_wf_def)
  have k: "lastKey_loop (action_time am) (map fst (actionMaps s)) 0
             = (if i = 0 then 0 else map fst (actionMaps s) ! (i - 1))"
    using lastKey_loop_nth [OF d, of i 0] assms(2,3) by simp
  show ?thesis
  proof (cases i)
    case 0
    then show ?thesis using k z by (simp add: getLastAction_def actionMaps_get_absent)
  next
    case (Suc j)
    then have "j < length (actionMaps s)" using assms(2) by simp
    then show ?thesis
      using k Suc actionMaps_get_nth [OF assms(1), of j] by (simp add: getLastAction_def)
  qed
qed

text \<open>
  The walk to the non-concurrent ancestor steps to an earlier key each time, so the
  fuel it is given, one more than the number of keys, is never used up.
\<close>

lemma nonConcurrencyWalk_None: "nonConcurrencyWalk (Suc n) s None = Some (Inl TypeError)"
  by simp

lemma nonConcurrencyWalk_fuel:
  assumes "log_wf s" and "i < length (actionMaps s)"
    and "action_time la = map fst (actionMaps s) ! i" and "i + 2 \<le> n"
  shows "nonConcurrencyWalk n s (Some la) \<noteq> None"
  using assms(2,3,4)
proof (induction i arbitrary: la n)
  case 0
  define m where "m = n - 2"
  have n: "n = Suc (Suc m)" using "0.prems"(3) by (simp add: m_def)
  have "getLastAction s la = None"
    using getLastAction_preceding [OF assms(1) "0.prems"(1,2)] by simp
  then show ?case
    by (simp add: n split: sum.splits)
next
  case (Suc j)
  define m where "m = n - 1"
  have n: "n = Suc m" and m: "j + 2 \<le> m" using Suc.prems(3) by (simp_all add: m_def)
  have j: "j < length (actionMaps s)" using Suc.prems(1) by simp
  have prev: "getLastAction s la = Some (objects s ! snd (actionMaps s ! j))"
    using getLastAction_preceding [OF assms(1) Suc.prems(1,2)] by simp
  have t: "action_time (objects s ! snd (actionMaps s ! j)) = map fst (actionMaps s) ! j"
    using actionMaps_get_nth [OF assms(1) j] by simp
  have "nonConcurrencyWalk m s (Some (objects s ! snd (actionMaps s ! j))) \<noteq> None"
    by (rule Suc.IH [OF j t m])
  then show ?case
    by (simp add: n prev split: sum.splits)
qed

lemma getLastNonConcurrencyAction_returns:
  assumes "log_wf s"
  shows "getLastNonConcurrencyAction s am \<noteq> None"
proof -
  define k where "k = lastKey_loop (action_time am) (map fst (actionMaps s)) 0"
  show ?thesis
  proof (cases "k \<in> set (map fst (actionMaps s))")
    case False
    then have "getLastAction s am = None"
      by (simp add: getLastAction_def k_def [symmetric] actionMaps_get_absent)
    then show ?thesis by (simp add: getLastNonConcurrencyAction_def)
  next
    case True
    then obtain i where i: "i < length (actionMaps s)" and ki: "map fst (actionMaps s) ! i = k"
      by (auto simp: in_set_conv_nth)
    have g: "getLastAction s am = Some (objects s ! snd (actionMaps s ! i))"
      using actionMaps_get_nth [OF assms i] by (simp add: getLastAction_def k_def [symmetric] ki)
    have t: "action_time (objects s ! snd (actionMaps s ! i)) = map fst (actionMaps s) ! i"
      using actionMaps_get_nth [OF assms i] by simp
    have "i + 2 \<le> Suc (length (actionMaps s))" using i by simp
    then have "nonConcurrencyWalk (Suc (length (actionMaps s))) s
            (Some (objects s ! snd (actionMaps s ! i))) \<noteq> None"
      by (rule nonConcurrencyWalk_fuel [OF assms i t])
    then show ?thesis by (simp add: getLastNonConcurrencyAction_def g)
  qed
qed


text \<open>Every step of the model keeps the log in this shape.\<close>

lemma map_fst_Map_set:
  "map fst (Map_set k v m) = (if k \<in> set (map fst m) then map fst m else map fst m @ [k])"
  by (induction m) auto

lemma set_Map_set: "e \<in> set (Map_set k v m) \<Longrightarrow> e = (k, v) \<or> e \<in> set m"
  by (induction m) (auto split: if_splits)

lemma log_wf_initial: "log_wf (initial opened)"
  by (simp add: log_wf_def initial_def)

lemma log_wf_logAction:
  assumes "log_wf s" and "now \<noteq> 0"
  shows "log_wf (logAction ext event now s)"
proof -
  have keys: "distinct (map fst (actionMaps (logAction ext event now s)))
      \<and> 0 \<notin> set (map fst (actionMaps (logAction ext event now s)))"
    using assms by (auto simp: log_wf_def logAction_def map_fst_Map_set)
  have "snd entry < length (objects (logAction ext event now s))
      \<and> action_time (objects (logAction ext event now s) ! snd entry) = fst entry"
    if "entry \<in> set (actionMaps (logAction ext event now s))" for entry
  proof -
    have "entry = (now, length (objects s)) \<or> entry \<in> set (actionMaps s)"
      using that set_Map_set [of entry now "length (objects s)" "actionMaps s"]
      by (simp add: logAction_def)
    then show ?thesis
    proof
      assume "entry = (now, length (objects s))"
      then show ?thesis by (simp add: logAction_def action_json_def)
    next
      assume "entry \<in> set (actionMaps s)"
      then have "snd entry < length (objects s) \<and> action_time (objects s ! snd entry) = fst entry"
        using assms(1) by (simp add: log_wf_def)
      then show ?thesis by (simp add: logAction_def nth_append)
    qed
  qed
  then show ?thesis using keys by (simp add: log_wf_def)
qed

lemma log_wf_set_executed:
  assumes "log_wf s"
  shows "log_wf (set_executed a b s)"
proof -
  have "action_time ((objects s)[a := (objects s ! a)\<lparr>executed := Some b\<rparr>] ! i)
          = action_time (objects s ! i)" if "i < length (objects s)" for i
    using that by (cases "i = a") simp_all
  then show ?thesis
    using assms by (simp add: log_wf_def set_executed_def)
qed

lemma log_wf_sendAction: "log_wf (sendAction r c s) = log_wf s"
  by (simp add: log_wf_def sendAction_def)

lemma log_wf_sendActionConcurrency: "log_wf (sendActionConcurrency r c s) = log_wf s"
  by (simp add: log_wf_def sendActionConcurrency_def)

lemma log_wf_sendActionEvent: "log_wf (sendActionEvent event s) = log_wf s"
  by (simp add: log_wf_def sendActionEvent_def)

lemma log_wf_sendAction_then: "log_wf (sendAction_then result s) = log_wf s"
  by (cases result) (simp_all add: log_wf_def sendAction_then_def)

lemma log_wf_concurrentDecision:
  assumes "log_wf s"
  shows "log_wf (fst (concurrentDecision event a s))"
  using assms
  by (auto simp: concurrentDecision_def log_wf_set_executed log_wf_sendActionConcurrency
      log_wf_sendActionEvent split: option.splits)

lemma log_wf_sendEvent:
  assumes "log_wf s" and "now \<noteq> 0"
  shows "log_wf (fst (sendEvent ext event now s))"
proof -
  have l: "log_wf (logAction ext event now s)" by (rule log_wf_logAction [OF assms])
  show ?thesis
    using l log_wf_concurrentDecision [OF l]
    by (auto simp: sendEvent_def Let_def log_wf_set_executed log_wf_sendAction
        log_wf_sendActionEvent split: sum.splits option.splits)
qed

lemma log_wf_sendEvent_afterSleep:
  assumes "log_wf s"
  shows "log_wf (fst (sendEvent_afterSleep event a due now s))"
  using assms log_wf_concurrentDecision [OF assms]
  by (auto simp: sendEvent_afterSleep_def split: option.splits)

lemma log_wf_sendEvent_afterFetch:
  assumes "log_wf s"
  shows "log_wf (fst (sendEvent_afterFetch event a result s))"
  using assms
  by (auto simp: sendEvent_afterFetch_def Let_def log_wf_set_executed log_wf_sendActionEvent
      log_wf_sendAction_then)

lemma sendEvent_terminates:
  assumes "log_wf s" and "now \<noteq> 0"
  shows "snd (sendEvent ext event now s) \<noteq> Diverged"
  using getLastNonConcurrencyAction_returns [OF log_wf_logAction [OF assms],
          of ext event "action_json ext event now s"]
  by (auto simp: sendEvent_def Let_def concurrentDecision_def split: sum.splits option.splits)

section \<open>Properties of the classification\<close>

lemma keyEvent_fields:
  "type (keyEvent a k) = 0" "action (keyEvent a k) = Some a" "keycode (keyEvent a k) = Some k"
  by (simp_all add: keyEvent_def)

lemma touchEvent_fields:
  "type (touchEvent a) = 2" "action (touchEvent a) = Some a" "keycode (touchEvent a) = None"
  by (simp_all add: touchEvent_def)

lemma plainEvent_fields:
  "type (plainEvent t) = t" "action (plainEvent t) = None" "keycode (plainEvent t) = None"
  by (simp_all add: plainEvent_def)

lemma judgeConcurrency_throws:
  "judgeConcurrency s am = Inl e \<Longrightarrow> e = TypeError \<and> getLastAction s am = None"
  by (auto simp: judgeConcurrency_def Let_def split: if_splits option.splits)

text \<open>
  Claim C8. A key event (type 0) is concurrent when its action is the release (1);
  otherwise it is non-concurrent when its keycode is one of 3, 4, 24, 25, 26, 187;
  otherwise it is concurrent exactly when the record before it in the log is a key
  press (type 0, action 0), and non-concurrent when that record is anything else.
\<close>

theorem judgeConcurrency_key_event:
  assumes "type (ev am) = 0"
  shows "(action (ev am) = Some 1 \<longrightarrow> judgeConcurrency s am = Inr True)
       \<and> (action (ev am) \<noteq> Some 1 \<and> (\<exists>k. keycode (ev am) = Some k \<and> k \<in> {3, 4, 24, 25, 26, 187})
            \<longrightarrow> judgeConcurrency s am = Inr False)
       \<and> (action (ev am) \<noteq> Some 1 \<and> \<not> (\<exists>k. keycode (ev am) = Some k \<and> k \<in> {3, 4, 24, 25, 26, 187})
            \<longrightarrow> (judgeConcurrency s am = Inr True
                   \<longleftrightarrow> (\<exists>lastAction. getLastAction s am = Some lastAction
                          \<and> type (ev lastAction) = 0 \<and> action (ev lastAction) = Some 0))
              \<and> (\<forall>lastAction. getLastAction s am = Some lastAction
                     \<longrightarrow> judgeConcurrency s am
                         = Inr (type (ev lastAction) = 0 \<and> action (ev lastAction) = Some 0)))"
  using assms by (auto simp: judgeConcurrency_def split: option.splits)

text \<open>
  The three rules at work after the key 29 has been pressed: the release of the key is
  concurrent, a press of the key 3 is not, and a press of the key 30 is concurrent
  because the record before it is the press of 29.
\<close>

theorem judgeConcurrency_key_event_witness:
  "judgeConcurrency (fst (sendEvent raw_externals (keyEvent 1 29) 2050 after_press))
      (objects (fst (sendEvent raw_externals (keyEvent 1 29) 2050 after_press)) ! 2) = Inr True
   \<and> judgeConcurrency (fst (sendEvent raw_externals (keyEvent 0 3) 2050 after_press))
      (objects (fst (sendEvent raw_externals (keyEvent 0 3) 2050 after_press)) ! 2) = Inr False
   \<and> judgeConcurrency (fst (sendEvent raw_externals (keyEvent 0 30) 2050 after_press))
      (objects (fst (sendEvent raw_externals (keyEvent 0 30) 2050 after_press)) ! 2) = Inr True
   \<and> getLastAction (fst (sendEvent raw_externals (keyEvent 0 30) 2050 after_press))
      (objects (fst (sendEvent raw_externals (keyEvent 0 30) 2050 after_press)) ! 2)
      = Some \<lparr>action_time = 2000, ev = keyEvent 0 29, contentRect = None, device_name = [],
              executed = None\<rparr>"
proof -
  let ?s1 = "fst (sendEvent raw_externals (keyEvent 1 29) 2050 after_press)"
  let ?s2 = "fst (sendEvent raw_externals (keyEvent 0 3) 2050 after_press)"
  let ?s3 = "fst (sendEvent raw_externals (keyEvent 0 30) 2050 after_press)"
  have e1: "ev (objects ?s1 ! 2) = keyEvent 1 29" by code_simp
  have e2: "ev (objects ?s2 ! 2) = keyEvent 0 3" by code_simp
  have e3: "ev (objects ?s3 ! 2) = keyEvent 0 30" by code_simp
  have l3: "getLastAction ?s3 (objects ?s3 ! 2)
      = Some \<lparr>action_time = 2000, ev = keyEvent 0 29, contentRect = None, device_name = [],
              executed = None\<rparr>" by code_simp
  show ?thesis
    using judgeConcurrency_key_event [of "objects ?s1 ! 2" ?s1]
      judgeConcurrency_key_event [of "objects ?s2 ! 2" ?s2]
      judgeConcurrency_key_event [of "objects ?s3 ! 2" ?s3]
    by (simp add: e1 e2 e3 l3 keyEvent_fields)
qed

text \<open>
  Claim C2, as the code has it. A pointer event (type 2) is non-concurrent when its
  action is 0, the down event, and concurrent when its action is 1 or 2, the up and
  the move events; with any other action it is non-concurrent.
\<close>

theorem judgeConcurrency_pointer_event:
  assumes "type (ev am) = 2"
  shows "(action (ev am) = Some ACTION_DOWN \<longrightarrow> judgeConcurrency s am = Inr False)
       \<and> (action (ev am) = Some ACTION_UP \<longrightarrow> judgeConcurrency s am = Inr True)
       \<and> (action (ev am) = Some ACTION_MOVE \<longrightarrow> judgeConcurrency s am = Inr True)
       \<and> (action (ev am) \<notin> {Some ACTION_DOWN, Some ACTION_UP, Some ACTION_MOVE}
            \<longrightarrow> judgeConcurrency s am = Inr False)"
  using assms
  by (auto simp: judgeConcurrency_def ACTION_DOWN_def ACTION_UP_def ACTION_MOVE_def)

theorem judgeConcurrency_pointer_event_witness:
  "judgeConcurrency after_first
      \<lparr>action_time = 2000, ev = touchEvent ACTION_DOWN, contentRect = None,
        device_name = [], executed = None\<rparr> = Inr False
   \<and> judgeConcurrency after_first
      \<lparr>action_time = 2000, ev = touchEvent ACTION_UP, contentRect = None,
        device_name = [], executed = None\<rparr> = Inr True"
  using judgeConcurrency_pointer_event
      [of "\<lparr>action_time = 2000, ev = touchEvent ACTION_DOWN, contentRect = None,
             device_name = [], executed = None\<rparr>" after_first]
    judgeConcurrency_pointer_event
      [of "\<lparr>action_time = 2000, ev = touchEvent ACTION_UP, contentRect = None,
             device_name = [], executed = None\<rparr>" after_first]
  by (simp add: touchEvent_def)

text \<open>
  Claim C2 as the spec states it fails: a pointer move is classified concurrent, and
  the pointer down before it is classified non-concurrent.
\<close>

theorem pointer_move_is_concurrent:
  "judgeConcurrency after_first
      \<lparr>action_time = 2010, ev = touchEvent ACTION_MOVE, contentRect = None,
        device_name = [], executed = None\<rparr> = Inr True
   \<and> judgeConcurrency after_first
      \<lparr>action_time = 2000, ev = touchEvent ACTION_DOWN, contentRect = None,
        device_name = [], executed = None\<rparr> = Inr False"
  by (simp add: judgeConcurrency_def touchEvent_def ACTION_DOWN_def ACTION_MOVE_def)

section \<open>Properties of a submission\<close>

lemma Map_get_Map_set: "Map_get (Map_set k v m) k = Some v"
  by (induction m) (auto simp: Map_get_def)

text \<open>
  Claim C6. A message whose type is 4, 8, 9, 10, 101 or 102 is handled without any
  suspension: \<open>sendEvent\<close> returns at once, the message has been written to the
  socket (or queued when the socket is not open), one authorization request with
  \<^verbatim>\<open>concurrency\<close> false has been sent and not waited for (the stored answer is
  untouched), and the logged record has \<^verbatim>\<open>executed\<close> true.
\<close>

theorem sendEvent_fast_path:
  assumes "type event \<in> {4, 8, 9, 10, 101, 102}"
  shows "snd (sendEvent ext event now s) = Returned
       \<and> objects (fst (sendEvent ext event now s))
           = objects s @ [(action_json ext event now s)\<lparr>executed := Some True\<rparr>]
       \<and> Map_get (actionMaps (fst (sendEvent ext event now s))) now = Some (length (objects s))
       \<and> ws_sent (fst (sendEvent ext event now s))
           = (if ws_open s then ws_sent s @ [event] else ws_sent s)
       \<and> events (fst (sendEvent ext event now s))
           = (if ws_open s then events s else events s @ [event])
       \<and> fetched (fst (sendEvent ext event now s))
           = fetched s @ [(action_json ext event now s, False)]
       \<and> this_action_time (fst (sendEvent ext event now s)) = this_action_time s
       \<and> this_action_flag (fst (sendEvent ext event now s)) = this_action_flag s"
  using assms
  by (auto simp: sendEvent_def logAction_def Let_def set_executed_def sendAction_def
        sendActionEvent_def Map_get_Map_set)

theorem sendEvent_fast_path_witness:
  "type (plainEvent 8) \<in> {4, 8, 9, 10, 101, 102}
   \<and> snd (sendEvent raw_externals (plainEvent 8) 2100 after_press) = Returned
   \<and> executed (objects (fst (sendEvent raw_externals (plainEvent 8) 2100 after_press)) ! 2)
       = Some True
   \<and> ws_sent (fst (sendEvent raw_externals (plainEvent 8) 2100 after_press))
       = [plainEvent 4, plainEvent 8]"
proof -
  have h: "type (plainEvent 8) \<in> {4, 8, 9, 10, 101, 102}" by (simp add: plainEvent_def)
  have o: "length (objects after_press) = 2" by code_simp
  have w: "ws_open after_press \<and> ws_sent after_press = [plainEvent 4]" by code_simp
  show ?thesis
    using sendEvent_fast_path [OF h, of raw_externals 2100 after_press] h o w
    by (simp add: nth_append)
qed

lemma getLastAction_first:
  assumes "actionMaps s = [(action_time am, a)]" and "action_time am \<noteq> 0"
  shows "getLastAction s am = None"
  using assms by (simp add: getLastAction_def actionMaps_get_def Map_get_def)

lemma getLastExecutedAction_first:
  assumes "actionMaps s = [(action_time am, a)]" and "action_time am \<noteq> 0"
  shows "getLastExecutedAction s am = None"
  using assms by (simp add: getLastExecutedAction_def actionMaps_get_def Map_get_def)

text \<open>
  Claim C10. When the log is empty and the message does not take the fast path (and
  the clock does not read 0), the record just logged is the only one: the walks of
  \<open>getLastAction\<close> and \<open>getLastExecutedAction\<close> end on key 0, which the log does
  not have, both return no record, and \<open>sendEvent\<close> throws a TypeError, leaving the
  record without \<^verbatim>\<open>executed\<close>.
\<close>

theorem sendEvent_first_record:
  assumes "actionMaps s = []" and "now \<noteq> 0" and "type event \<notin> {4, 8, 9, 10, 101, 102}"
  shows "snd (sendEvent ext event now s) = Thrown TypeError
       \<and> actionMaps (fst (sendEvent ext event now s)) = [(now, length (objects s))]
       \<and> Map_get (actionMaps (fst (sendEvent ext event now s))) 0 = None
       \<and> getLastAction (fst (sendEvent ext event now s))
            (objects (fst (sendEvent ext event now s)) ! length (objects s)) = None
       \<and> getLastExecutedAction (fst (sendEvent ext event now s))
            (objects (fst (sendEvent ext event now s)) ! length (objects s)) = None
       \<and> executed (objects (fst (sendEvent ext event now s)) ! length (objects s)) = None"
proof -
  define am where "am = action_json ext event now s"
  define s1 where "s1 = logAction ext event now s"
  have time: "action_time am = now" by (simp add: am_def action_json_def)
  have maps: "actionMaps s1 = [(action_time am, length (objects s))]"
    using assms(1) by (simp add: s1_def logAction_def time)
  have t: "action_time am \<noteq> 0" using assms(2) by (simp add: time)
  have la: "getLastAction s1 am = None" by (rule getLastAction_first [OF maps t])
  have le: "getLastExecutedAction s1 am = None" by (rule getLastExecutedAction_first [OF maps t])
  have walk: "getLastNonConcurrencyAction s1 am = Some (Inl TypeError)"
    by (simp add: getLastNonConcurrencyAction_def la)
  have run: "sendEvent ext event now s = (s1, Thrown TypeError)"
    using assms(3) la le walk judgeConcurrency_throws [of s1 am]
    by (auto simp: sendEvent_def Let_def am_def [symmetric] s1_def [symmetric] split: sum.splits)
  have obj: "objects s1 ! length (objects s) = am" by (simp add: s1_def logAction_def am_def)
  show ?thesis
    using maps la le t by (simp add: run obj Map_get_def time) (simp add: am_def action_json_def)
qed

text \<open>
  The non-concurrent path needs an earlier record that was executed: without one the
  spacing check reads a property of \<^verbatim>\<open>undefined\<close>.
\<close>

lemma sendEvent_no_executed_record:
  assumes "type event \<notin> {4, 8, 9, 10, 101, 102}"
    and "judgeConcurrency (logAction ext event now s) (action_json ext event now s) = Inr False"
    and "getLastExecutedAction (logAction ext event now s) (action_json ext event now s) = None"
  shows "sendEvent ext event now s = (logAction ext event now s, Thrown TypeError)"
  using assms by (simp add: sendEvent_def Let_def)

text \<open>
  The first message of a session, a pointer down at time 1000 on a receiver fresh from
  its constructor: the submission throws and its record stays unresolved.
\<close>

theorem sendEvent_first_record_witness:
  "actionMaps (initial True :: raw_receiver) = [] \<and> (1000 :: int) \<noteq> 0
   \<and> type (touchEvent ACTION_DOWN) \<notin> {4, 8, 9, 10, 101, 102}
   \<and> snd (sendEvent raw_externals (touchEvent ACTION_DOWN) 1000 (initial True)) = Thrown TypeError
   \<and> executed (objects (fst (sendEvent raw_externals (touchEvent ACTION_DOWN) 1000 (initial True))) ! 0)
       = None"
proof -
  have a: "actionMaps (initial True :: raw_receiver) = []" by (simp add: initial_def)
  have b: "(1000 :: int) \<noteq> 0" by simp
  have c: "type (touchEvent ACTION_DOWN) \<notin> {4, 8, 9, 10, 101, 102}"
    by (simp add: touchEvent_def)
  have o: "objects (initial True :: raw_receiver) = []" by (simp add: initial_def)
  show ?thesis
    using sendEvent_first_record [OF a b c, of raw_externals] a c o by simp
qed

text \<open>
  The end of the non-concurrent path when the last executed record is at most 500 ms
  old: nothing happens after the logging. No request is sent, and the record is left
  without \<^verbatim>\<open>executed\<close>.
\<close>

lemma sendEvent_spacing:
  assumes "type event \<notin> {4, 8, 9, 10, 101, 102}"
    and "judgeConcurrency (logAction ext event now s) (action_json ext event now s) = Inr False"
    and "getLastExecutedAction (logAction ext event now s) (action_json ext event now s)
           = Some lastExecutedAction"
    and "now - action_time lastExecutedAction \<le> 500"
  shows "sendEvent ext event now s = (logAction ext event now s, Returned)"
  using assms by (simp add: sendEvent_def Let_def action_json_def)

text \<open>
  Claim C1, at an input where the code departs from it. A pointer down submitted 100 ms
  after a record that was executed: \<open>sendEvent\<close> returns, no authorization request
  has been sent for it, nothing has been written to the socket, and its record has no
  \<^verbatim>\<open>executed\<close> field (it is not marked false).
\<close>

theorem spacing_drop_leaves_executed_unset:
  "snd (sendEvent raw_externals (touchEvent ACTION_DOWN) 1100 after_first) = Returned
   \<and> executed (objects after_first ! 0) = Some True
   \<and> action_time (objects after_first ! 0) = 1000
   \<and> fetched (fst (sendEvent raw_externals (touchEvent ACTION_DOWN) 1100 after_first))
       = fetched after_first
   \<and> ws_sent (fst (sendEvent raw_externals (touchEvent ACTION_DOWN) 1100 after_first))
       = ws_sent after_first
   \<and> objects (fst (sendEvent raw_externals (touchEvent ACTION_DOWN) 1100 after_first)) ! 1
       = \<lparr>action_time = 1100, ev = touchEvent ACTION_DOWN, contentRect = None,
          device_name = [], executed = None\<rparr>"
  by code_simp

text \<open>
  Claim C4, at an input where the code departs from it. The key 3 pressed 200 ms after a
  record that was executed: the submission is over (\<open>sendEvent\<close> has returned) and
  the \<^verbatim>\<open>executed\<close> field of its record was never set.
\<close>

theorem submission_ends_unresolved:
  "snd (sendEvent raw_externals (keyEvent 0 3) 1200 after_first) = Returned
   \<and> Map_get (actionMaps (fst (sendEvent raw_externals (keyEvent 0 3) 1200 after_first))) 1200
       = Some 1
   \<and> executed (objects (fst (sendEvent raw_externals (keyEvent 0 3) 1200 after_first)) ! 1)
       = None"
  by code_simp

text \<open>
  Claim C7, at an input where the code departs from it. Two messages are submitted in
  the same millisecond; the answer to the first one's request is stored while the
  second waits for its own, which fails. The second message is written to the socket
  and its record marked executed, on the strength of the answer to the first.
\<close>

theorem failed_request_is_forwarded:
  "snd (sendEvent raw_externals (touchEvent ACTION_DOWN) 2000 same_ms_fast) = Fetching 2
   \<and> this_action_time same_ms_answer = TimeNumber 2000
   \<and> this_action_flag same_ms_answer = Some True
   \<and> sendAction_then Rejected same_ms_answer = same_ms_answer
   \<and> snd (sendEvent_afterFetch (touchEvent ACTION_DOWN) 2 Rejected same_ms_answer) = Returned
   \<and> executed (objects (fst (sendEvent_afterFetch (touchEvent ACTION_DOWN) 2 Rejected
                                same_ms_answer)) ! 2) = Some True
   \<and> ws_sent (fst (sendEvent_afterFetch (touchEvent ACTION_DOWN) 2 Rejected same_ms_answer))
       = [plainEvent 4, plainEvent 8, touchEvent ACTION_DOWN]"
  by code_simp

text \<open>
  What the non-concurrent path does with the answer in general: the message is
  forwarded exactly when, after the callback, the stored time equals the record's time
  and the stored flag is true. An answer overwrites both stored values, a rejected
  request leaves the old ones.
\<close>

lemma sendEvent_afterFetch_outcome:
  assumes "a < length (objects s)"
  shows "snd (sendEvent_afterFetch event a result s) = Returned
       \<and> executed (objects (fst (sendEvent_afterFetch event a result s)) ! a)
           = Some (time_equals (this_action_time (sendAction_then result s))
                     (action_time (objects s ! a))
                   \<and> this_action_flag (sendAction_then result s) = Some True)
       \<and> fetched (fst (sendEvent_afterFetch event a result s)) = fetched s"
  using assms
  by (cases result)
     (auto simp: sendEvent_afterFetch_def sendAction_then_def set_executed_def
        sendActionEvent_def Let_def)

lemma sendAction_then_Answer:
  "this_action_flag (sendAction_then (Answer flag time) s) = flag
   \<and> time_equals (this_action_time (sendAction_then (Answer flag time) s)) n = (time = Some n)"
  by (auto simp: sendAction_then_def time_equals_def split: option.splits)

text \<open>
  Claim C5, as the code has it. Let the message be classified concurrent, with a
  non-concurrent ancestor and a preceding record. Then \<open>sendEvent\<close> decides at once
  when the preceding record has \<^verbatim>\<open>executed\<close>, and otherwise sets a timer of 100 ms.
  A submission whose timer is due at \<open>due\<close> does nothing before that time. Resumed at
  \<open>due\<close> or later, it sets the next timer of 100 ms when the field is still absent
  and at most 3000 ms have passed since the record was logged, and decides otherwise;
  so two successive reads of the field are at least 100 ms apart. The decision looks at
  the field as it is then: when it is true the message is forwarded, a request with
  \<^verbatim>\<open>concurrency\<close> true is sent and not waited for, and the record is marked executed;
  otherwise the record is marked not executed and nothing is sent.
\<close>

theorem concurrent_path:
  assumes "judgeConcurrency (logAction ext event now s) (action_json ext event now s) = Inr True"
    and "getLastNonConcurrencyAction (logAction ext event now s) (action_json ext event now s)
           = Some (Inr ancestor)"
    and "getLastAction (logAction ext event now s) (action_json ext event now s) = Some lastAction"
  shows "sendEvent ext event now s
           = (if executed lastAction = None
              then (logAction ext event now s, Sleeping (length (objects s)) (now + 100))
              else concurrentDecision event (length (objects s)) (logAction ext event now s))
       \<and> (now' < due \<longrightarrow> sendEvent_afterSleep event a due now' s' = (s', Sleeping a due))
       \<and> (due \<le> now' \<and> a < length (objects s')
            \<and> getLastAction s' (objects s' ! a) = Some lastAction'
            \<longrightarrow> sendEvent_afterSleep event a due now' s'
                  = (if executed lastAction' = None \<and> now' - action_time (objects s' ! a) \<le> 3000
                     then (s', Sleeping a (now' + 100)) else concurrentDecision event a s')
              \<and> snd (concurrentDecision event a s') = Returned
              \<and> executed (objects (fst (concurrentDecision event a s')) ! a)
                  = Some (executed lastAction' = Some True)
              \<and> ws_sent (fst (concurrentDecision event a s'))
                  = (if executed lastAction' = Some True \<and> ws_open s'
                     then ws_sent s' @ [event] else ws_sent s')
              \<and> events (fst (concurrentDecision event a s'))
                  = (if executed lastAction' = Some True \<and> \<not> ws_open s'
                     then events s' @ [event] else events s')
              \<and> fetched (fst (concurrentDecision event a s'))
                  = (if executed lastAction' = Some True
                     then fetched s' @ [(objects s' ! a, True)] else fetched s')
              \<and> this_action_time (fst (concurrentDecision event a s')) = this_action_time s'
              \<and> this_action_flag (fst (concurrentDecision event a s')) = this_action_flag s')"
proof -
  have "type event \<notin> set [4, 8, 9, 10, 101, 102]"
    using assms(1) by (auto simp: judgeConcurrency_def action_json_def)
  then have start: "sendEvent ext event now s
           = (if executed lastAction = None
              then (logAction ext event now s, Sleeping (length (objects s)) (now + 100))
              else concurrentDecision event (length (objects s)) (logAction ext event now s))"
    using assms by (simp add: sendEvent_def Let_def)
  show ?thesis
    by (auto simp: start sendEvent_afterSleep_def concurrentDecision_def set_executed_def
        sendActionConcurrency_def sendActionEvent_def)
qed

text \<open>
  The pointer move submitted at time 2010 after the pointer down of time 2000: it sets
  a timer due at 2110. At 2050 nothing happens. Resumed at 2110, with the down still
  unresolved, it sets a timer due at 2210. Resumed at 2210, once the down has been
  allowed, it is forwarded and marked executed.
\<close>

theorem concurrent_path_witness:
  "sendEvent raw_externals (touchEvent ACTION_MOVE) 2010 late_down = (late_move, Sleeping 2 2110)
   \<and> sendEvent_afterSleep (touchEvent ACTION_MOVE) 2 2110 2050 late_move
       = (late_move, Sleeping 2 2110)
   \<and> sendEvent_afterSleep (touchEvent ACTION_MOVE) 2 2110 2110 late_move
       = (late_move, Sleeping 2 2210)
   \<and> snd (sendEvent_afterSleep (touchEvent ACTION_MOVE) 2 2210 2210 prompt_answer) = Returned
   \<and> executed (objects (fst (sendEvent_afterSleep (touchEvent ACTION_MOVE) 2 2210 2210
                                prompt_answer)) ! 2) = Some True"
proof -
  let ?down = "\<lparr>action_time = 2000, ev = touchEvent ACTION_DOWN, contentRect = None,
                 device_name = [], executed = None\<rparr> :: byte list actionMap"
  have j: "judgeConcurrency (logAction raw_externals (touchEvent ACTION_MOVE) 2010 late_down)
             (action_json raw_externals (touchEvent ACTION_MOVE) 2010 late_down) = Inr True"
    by code_simp
  have w: "getLastNonConcurrencyAction (logAction raw_externals (touchEvent ACTION_MOVE) 2010 late_down)
             (action_json raw_externals (touchEvent ACTION_MOVE) 2010 late_down)
           = Some (Inr ?down)"
    by code_simp
  have l: "getLastAction (logAction raw_externals (touchEvent ACTION_MOVE) 2010 late_down)
             (action_json raw_externals (touchEvent ACTION_MOVE) 2010 late_down) = Some ?down"
    by code_simp
  have m: "logAction raw_externals (touchEvent ACTION_MOVE) 2010 late_down = late_move"
    by code_simp
  have n: "length (objects late_down) = 2 \<and> length (objects late_move) = 3" by code_simp
  have l1: "getLastAction late_move (objects late_move ! 2) = Some ?down" by code_simp
  have t1: "action_time (objects late_move ! 2) = 2010" by code_simp
  have n2: "length (objects prompt_answer) = 3" by code_simp
  have l2: "getLastAction prompt_answer (objects prompt_answer ! 2)
              = Some (?down\<lparr>executed := Some True\<rparr>)"
    by code_simp
  have t2: "action_time (objects prompt_answer ! 2) = 2010" by code_simp
  show ?thesis
    using concurrent_path [OF j w l, where a = 2 and s' = late_move and lastAction' = ?down
             and due = 2110 and now' = 2050]
      concurrent_path [OF j w l, where a = 2 and s' = late_move and lastAction' = ?down
             and due = 2110 and now' = 2110]
      concurrent_path [OF j w l, where a = 2 and s' = prompt_answer
             and lastAction' = "?down\<lparr>executed := Some True\<rparr>" and due = 2210 and now' = 2210]
    by (simp add: m n l1 t1 n2 l2 t2)
qed

text \<open>
  Claim C5 as the spec states it fails. The pointer move of time 2010 reads the field of
  the pointer down every 100 ms, from time 2110 to time 5010, and finds it absent each
  time; at 5010, 3000 ms after it was logged, it sets one more timer. The down is
  allowed after that. Resumed at time 5110, the move is forwarded and marked executed,
  although its predecessor did not resolve within 3000 ms.
\<close>

theorem late_predecessor_is_followed:
  "snd (sendEvent raw_externals (touchEvent ACTION_MOVE) 2010 late_down) = Sleeping 2 2110
   \<and> list_all (\<lambda>t. sendEvent_afterSleep (touchEvent ACTION_MOVE) 2 t t late_move
                       = (late_move, Sleeping 2 (t + 100))) late_wakeups
   \<and> hd late_wakeups = 2110 \<and> last late_wakeups = 5010 \<and> length late_wakeups = 30
   \<and> late_poll = late_move
   \<and> executed (objects late_poll ! 1) = None
   \<and> executed (objects late_answer ! 1) = Some True
   \<and> snd (sendEvent_afterSleep (touchEvent ACTION_MOVE) 2 5110 5110 late_answer) = Returned
   \<and> executed (objects (fst (sendEvent_afterSleep (touchEvent ACTION_MOVE) 2 5110 5110
                                late_answer)) ! 2) = Some True
   \<and> ws_sent (fst (sendEvent_afterSleep (touchEvent ACTION_MOVE) 2 5110 5110 late_answer))
       = [plainEvent 4, touchEvent ACTION_DOWN, touchEvent ACTION_MOVE]"
  by code_simp

section \<open>Properties of the handshake\<close>

text \<open>
  The loops over the displays and the encoders touch nothing but the maps, respectively
  the set, that they fill, and what they compute depends on nothing else.
\<close>

lemma displayEntry_frame:
  "emitted (fst (displayEntry ext rest s)) = emitted s
   \<and> encodersSet (fst (displayEntry ext rest s)) = encodersSet s
   \<and> clientId (fst (displayEntry ext rest s)) = clientId s
   \<and> deviceName (fst (displayEntry ext rest s)) = deviceName s
   \<and> hasInitialInfo (fst (displayEntry ext rest s)) = hasInitialInfo s"
  by (simp add: displayEntry_def Let_def split: option.splits sum.splits prod.splits)


lemma displaysLoop_frame:
  "emitted (fst (displaysLoop ext n rest s)) = emitted s
   \<and> encodersSet (fst (displaysLoop ext n rest s)) = encodersSet s
   \<and> clientId (fst (displaysLoop ext n rest s)) = clientId s
   \<and> deviceName (fst (displaysLoop ext n rest s)) = deviceName s
   \<and> hasInitialInfo (fst (displaysLoop ext n rest s)) = hasInitialInfo s"
proof (induction n arbitrary: rest s)
  case 0
  show ?case by simp
next
  case (Suc n)
  obtain s1 r where e: "displayEntry ext rest s = (s1, r)" by (cases "displayEntry ext rest s")
  have f: "emitted s1 = emitted s \<and> encodersSet s1 = encodersSet s \<and> clientId s1 = clientId s
     \<and> deviceName s1 = deviceName s \<and> hasInitialInfo s1 = hasInitialInfo s"
    using displayEntry_frame [of ext rest s] by (simp add: e)
  show ?case
  proof (cases r)
    case (Inl err)
    then show ?thesis using f by (simp add: e)
  next
    case (Inr rest1)
    then show ?thesis using f Suc.IH [of rest1 s1] by (simp add: e)
  qed
qed


lemma encodersLoop_frame:
  "emitted (fst (encodersLoop ext n rest s)) = emitted s
   \<and> displayMaps (fst (encodersLoop ext n rest s)) = displayMaps s
   \<and> clientId (fst (encodersLoop ext n rest s)) = clientId s
   \<and> deviceName (fst (encodersLoop ext n rest s)) = deviceName s
   \<and> hasInitialInfo (fst (encodersLoop ext n rest s)) = hasInitialInfo s"
  by (induction n arbitrary: rest s) (simp_all add: displayMaps_def Let_def split: sum.splits)






lemma displaysLoop_frameD:
  assumes "displaysLoop ext n rest s = (s1, r)"
  shows "emitted s1 = emitted s \<and> encodersSet s1 = encodersSet s \<and> clientId s1 = clientId s
       \<and> deviceName s1 = deviceName s \<and> hasInitialInfo s1 = hasInitialInfo s"
  using displaysLoop_frame [of ext n rest s] by (simp add: assms)

lemma encodersLoop_frameD:
  assumes "encodersLoop ext n rest s = (s1, r)"
  shows "emitted s1 = emitted s \<and> displayMaps s1 = displayMaps s \<and> clientId s1 = clientId s
       \<and> deviceName s1 = deviceName s \<and> hasInitialInfo s1 = hasInitialInfo s"
  using encodersLoop_frame [of ext n rest s] by (simp add: assms)


lemma combinedInfo_emitted: "combinedInfo (s\<lparr>emitted := x\<rparr>) = combinedInfo s"
  by (simp add: combinedInfo_def fun_eq_iff)

lemma triggerInitialInfoEvents_emits:
  assumes "hasInitialInfo s"
  shows "triggerInitialInfoEvents s
     = s\<lparr>emitted := emitted s @ [Emit_encoders (encodersSet s),
            Emit_clientsStats (clientId s) (deviceName s),
            Emit_displayInfo (map (combinedInfo s) (displayInfoMap s))]\<rparr>"
  using assms by (simp add: triggerInitialInfoEvents_def emit_def combinedInfo_emitted)

lemma handleInitialInfo_success_emits:
  assumes "handleInitialInfo ext data s = (s', None)"
  shows "hasInitialInfo s'
       \<and> emitted s' = emitted s @ [Emit_encoders (encodersSet s'),
            Emit_clientsStats (clientId s') (deviceName s'),
            Emit_displayInfo (map (combinedInfo s') (displayInfoMap s'))]"
  using assms
  by (auto simp: handleInitialInfo_def Let_def triggerInitialInfoEvents_emits combinedInfo_emitted
      split: if_splits sum.splits prod.splits
      dest!: displaysLoop_frameD encodersLoop_frameD)




lemma displayMaps_initial: "displayMaps (initial opened) = ([], [], [], [])"
  by (simp add: displayMaps_def initial_def)


lemma decodedDisplays_no_turn:
  assumes "readInt32BE (drop (length MAGIC_BYTES_INITIAL + DEVICE_NAME_FIELD_LENGTH) data)
             = Inr displaysCount" and "displaysCount \<le> 0"
  shows "decodedDisplays ext data = ([], [], [], [])"
  using assms by (simp add: decodedDisplays_def displayMaps_initial)

text \<open>
  A turn of the loop over the displays stores the display record as soon as it is
  decoded, whatever the rest of the turn does.
\<close>

lemma displayEntry_displayInfoMap:
  "displayInfoMap (fst (displayEntry ext rest s))
     = (case DisplayInfo_fromBuffer ext (Buffer_slice rest 0 (int (BUFFER_LENGTH ext))) of
          None \<Rightarrow> displayInfoMap s
        | Some di \<Rightarrow> Map_set (displayId ext di) di (displayInfoMap s))"
  by (simp add: displayEntry_def Let_def split: option.splits sum.splits prod.splits)




section \<open>Properties of the dispatch\<close>

lemma EqualArrays_loop_iff: "length a = length b \<Longrightarrow> EqualArrays_loop a b \<longleftrightarrow> a = b"
  by (induction a b rule: EqualArrays_loop.induct) auto

lemma EqualArrays_iff: "EqualArrays a b \<longleftrightarrow> a = b"
  using EqualArrays_loop_iff [of a b] by (auto simp: EqualArrays_def)

text \<open>
  Claim C9. A binary message longer than the magic prefix whose first bytes equal the
  handshake magic is handed to \<open>handleInitialInfo\<close>, which on success emits the
  encoders, the client statistics and the display records; one whose first bytes equal
  the device message magic is decoded and, unless the decoder throws, emitted as a
  device message; every other binary message, be it no longer than the magic prefix or
  with another prefix, is emitted whole as video.
\<close>

theorem onSocketMessage_dispatch:
  "onSocketMessage ext (ArrayBuffer data) s =
     (if length MAGIC_BYTES_INITIAL < length data
         \<and> take (length MAGIC_BYTES_INITIAL) data = MAGIC_BYTES_INITIAL
      then handleInitialInfo ext data s
      else if length MAGIC_BYTES_INITIAL < length data
         \<and> take (length MAGIC_BYTES_INITIAL) data = MAGIC_BYTES_MESSAGE ext
      then (case DeviceMessage_fromBuffer ext data of
              None \<Rightarrow> (s, Some DecodeError)
            | Some message \<Rightarrow> (s\<lparr>emitted := emitted s @ [Emit_deviceMessage message]\<rparr>, None))
      else (s\<lparr>emitted := emitted s @ [Emit_video data]\<rparr>, None))
   \<and> (\<forall>s'. handleInitialInfo ext data s = (s', None)
        \<longrightarrow> emitted s' = emitted s @ [Emit_encoders (encodersSet s'),
               Emit_clientsStats (clientId s') (deviceName s'),
               Emit_displayInfo (map (combinedInfo s') (displayInfoMap s'))])"
  using handleInitialInfo_success_emits [of ext data s]
  by (auto simp: onSocketMessage_def EqualArrays_iff emit_def Let_def split: option.splits)

text \<open>
  The example handshake, a device message with two bytes of payload, a message that is
  exactly the handshake magic and no longer, and a message with another prefix.
\<close>

theorem onSocketMessage_dispatch_witness:
  "onSocketMessage raw_externals (ArrayBuffer example_handshake) (initial True)
     = (connected_session, None)
   \<and> emitted connected_session
       = [Emit_encoders [''h264''], Emit_clientsStats 7 ''Pixel'',
          Emit_displayInfo [\<lparr>displayInfo = replicate 24 0, videoSettings = None,
                             screenInfo = None, connectionCount = 1\<rparr>]]
   \<and> emitted (fst (onSocketMessage raw_externals
                     (ArrayBuffer (map of_char ''scrcpy_message'' @ [1, 2])) (initial True)))
       = [Emit_deviceMessage [1, 2]]
   \<and> emitted (fst (onSocketMessage raw_externals (ArrayBuffer MAGIC_BYTES_INITIAL) (initial True)))
       = [Emit_video MAGIC_BYTES_INITIAL]
   \<and> emitted (fst (onSocketMessage raw_externals
                     (ArrayBuffer (map of_char ''scrcpy_control'' @ [1, 2])) (initial True)))
       = [Emit_video (map of_char ''scrcpy_control'' @ [1, 2])]"
proof -
  have h: "onSocketMessage raw_externals (ArrayBuffer example_handshake) (initial True)
     = (connected_session, None)"
    by code_simp
  have hi: "handleInitialInfo raw_externals example_handshake (initial True)
     = (connected_session, None)"
    by code_simp
  have f: "encodersSet connected_session = [''h264''] \<and> clientId connected_session = 7
     \<and> deviceName connected_session = ''Pixel''
     \<and> map (combinedInfo connected_session) (displayInfoMap connected_session)
         = [\<lparr>displayInfo = replicate 24 0, videoSettings = None,
             screenInfo = None, connectionCount = 1\<rparr>]
     \<and> emitted (initial True :: raw_receiver) = []"
    by code_simp
  have "emitted connected_session
       = emitted (initial True :: raw_receiver)
         @ [Emit_encoders (encodersSet connected_session),
            Emit_clientsStats (clientId connected_session) (deviceName connected_session),
            Emit_displayInfo (map (combinedInfo connected_session)
                                (displayInfoMap connected_session))]"
    using onSocketMessage_dispatch [of raw_externals example_handshake "initial True"] hi
    by blast
  then have e: "emitted connected_session
       = [Emit_encoders [''h264''], Emit_clientsStats 7 ''Pixel'',
          Emit_displayInfo [\<lparr>displayInfo = replicate 24 0, videoSettings = None,
                             screenInfo = None, connectionCount = 1\<rparr>]]"
    by (simp only: f append_Nil)
  have m: "emitted (fst (onSocketMessage raw_externals
                     (ArrayBuffer (map of_char ''scrcpy_message'' @ [1, 2])) (initial True)))
       = [Emit_deviceMessage [1, 2]]"
    by code_simp
  have "onSocketMessage raw_externals (ArrayBuffer MAGIC_BYTES_INITIAL) (initial True)
       = ((initial True)\<lparr>emitted := emitted (initial True :: raw_receiver)
                                       @ [Emit_video MAGIC_BYTES_INITIAL]\<rparr>, None)"
    using onSocketMessage_dispatch [of raw_externals MAGIC_BYTES_INITIAL "initial True"]
    by simp
  then have v: "emitted (fst (onSocketMessage raw_externals (ArrayBuffer MAGIC_BYTES_INITIAL)
                                 (initial True)))
       = [Emit_video MAGIC_BYTES_INITIAL]"
    by (simp add: f)
  have u: "emitted (fst (onSocketMessage raw_externals
                     (ArrayBuffer (map of_char ''scrcpy_control'' @ [1, 2])) (initial True)))
       = [Emit_video (map of_char ''scrcpy_control'' @ [1, 2])]"
    by code_simp
  show ?thesis
    using h e m v u by blast
qed

end
